theory Spec2Isabelle
  imports Complex_Main
begin

section \<open>The character record\<close>

text \<open>
  The dataclass \<open>Character\<close> of \<open>app.py\<close>. Python's unbounded integers are \<open>int\<close>.
  \<open>profile_image\<close> is \<open>bytes\<close> or \<open>None\<close>.
\<close>

record Character =
  name :: string
  vigor :: int
  max_vigor :: int
  clarity :: int
  max_clarity :: int
  spirit :: int
  max_spirit :: int
  guard :: int
  max_guard :: int
  armor :: int
  is_mortally_wounded :: bool
  is_wounded :: bool
  is_impaired :: bool
  is_fatigued :: bool
  is_scarred :: bool
  is_alive :: bool
  "notes" :: string
  profile_image :: "string option"

text \<open>The dictionary returned by \<open>apply_damage\<close>, one field per key.\<close>

record DamageReport =
  original_damage :: int
  final_damage :: int
  damage_log :: "string list"
  wounded :: bool
  mortal_wound_inflicted :: bool
  scar_inflicted :: bool
  character_slain :: bool

section \<open>Formatting of the log entries\<close>

text \<open>
  The f-strings of the log print integers with \<open>str\<close>: decimal digits, with a leading
  minus sign for a negative number.
\<close>

definition digit_char :: "nat \<Rightarrow> char" where
  "digit_char d = char_of (48 + d)"

function str_nat :: "nat \<Rightarrow> string" where
  "str_nat n = (if n < 10 then [digit_char n] else str_nat (n div 10) @ [digit_char (n mod 10)])"
  by pat_completeness auto
termination
  by (relation "measure (\<lambda>n. n)") auto

declare str_nat.simps [simp del]

definition str_int :: "int \<Rightarrow> string" where
  "str_int i = (if i < 0 then CHR ''-'' # str_nat (nat (- i)) else str_nat (nat i))"

text \<open>
  The four fixed messages start with an emoji; a \<open>char\<close> is a byte, so each emoji is
  written as its UTF-8 bytes (U+1F525, U+1FA78, U+26A0 U+FE0F, U+1F480).
\<close>

definition msg_armor :: "int \<Rightarrow> string" where
  "msg_armor armor_absorbed = ''Armor absorbed '' @ str_int armor_absorbed @ '' damage''"

definition msg_guard :: "int \<Rightarrow> int \<Rightarrow> string" where
  "msg_guard guard_damage now =
     ''Guard reduced by '' @ str_int guard_damage @ '' (now '' @ str_int now @ '')''"

definition msg_scar :: string where
  "msg_scar = [CHR 0xF0, CHR 0x9F, CHR 0x94, CHR 0xA5] @ '' SCAR inflicted! (Guard reduced to 0)''"

definition msg_vigor :: "int \<Rightarrow> int \<Rightarrow> string" where
  "msg_vigor vigor_damage now =
     ''Vigor reduced by '' @ str_int vigor_damage @ '' (now '' @ str_int now @ '')''"

definition msg_wounded :: string where
  "msg_wounded = [CHR 0xF0, CHR 0x9F, CHR 0xA9, CHR 0xB8] @ '' Character is now WOUNDED!''"

definition msg_mortal :: string where
  "msg_mortal =
     [CHR 0xE2, CHR 0x9A, CHR 0xA0, CHR 0xEF, CHR 0xB8, CHR 0x8F] @ '' MORTAL WOUND inflicted!''"

definition msg_slain :: string where
  "msg_slain = [CHR 0xF0, CHR 0x9F, CHR 0x92, CHR 0x80] @ '' CHARACTER SLAIN!''"

section \<open>True division by 2\<close>

text \<open>
  \<open>original_vigor / 2\<close> is Python's true division of integers: the double nearest to the
  exact quotient, ties going to the even significand, and \<open>OverflowError\<close> when that
  double would be beyond the largest one. A double has a significand of 53 bits.
  Halving only lowers the exponent, so the quotient is the integer rounded to 53
  significant bits, halved.

  \<open>excess_bits m\<close> is the number of low bits of \<open>m \<ge> 0\<close> that do not fit in 53 bits, and
  \<open>round_to_double m\<close> is \<open>m\<close> rounded to 53 significant bits, ties to even. The value of a
  double is kept as a rational number.
\<close>

function excess_bits :: "int \<Rightarrow> nat" where
  "excess_bits m = (if m < 2 ^ 53 then 0 else Suc (excess_bits (m div 2)))"
  by pat_completeness auto
termination
  by (relation "measure nat") auto

declare excess_bits.simps [simp del]

definition round_to_double :: "int \<Rightarrow> int" where
  "round_to_double m =
     (let s = excess_bits m;
          q = m div 2 ^ s;
          r = m mod 2 ^ s
      in if 2 * r < 2 ^ s then q * 2 ^ s
         else if 2 * r > 2 ^ s then (q + 1) * 2 ^ s
         else if even q then q * 2 ^ s
         else (q + 1) * 2 ^ s)"

definition true_div_2 :: "int \<Rightarrow> rat" where
  "true_div_2 n = of_int (sgn n * round_to_double \<bar>n\<bar>) / 2"


section \<open>Damage resolution\<close>

text \<open>
  \<open>Character.apply_damage\<close> mutates \<open>self\<close> and returns the report; the model returns
  the record after the call together with the report. The three commented steps of the
  method are three functions, each taking what the step reads (the record and the running
  \<open>damage\<close>) and returning what it writes.

  Step 1 (armor): runs when \<open>self.armor > 0\<close>; returns the running damage and the log.
\<close>

definition step1_armor :: "Character \<Rightarrow> int \<Rightarrow> int \<times> string list" where
  "step1_armor self damage =
     (if armor self > 0 then
        (let armor_absorbed = min damage (armor self)
         in (damage - armor_absorbed, [msg_armor armor_absorbed]))
      else (damage, []))"

text \<open>
  Step 2 (guard): runs when \<open>damage > 0 and self.guard > 0\<close>; returns the record, the
  running damage, the entries appended to the log and \<open>scar_inflicted\<close>.
\<close>

definition step2_guard :: "Character \<Rightarrow> int \<Rightarrow> Character \<times> int \<times> string list \<times> bool" where
  "step2_guard self damage =
     (if damage > 0 \<and> guard self > 0 then
        (let original_guard = guard self;
             guard_damage = min damage (guard self);
             self1 = self\<lparr>guard := guard self - guard_damage\<rparr>;
             damage1 = damage - guard_damage;
             log1 = [msg_guard guard_damage (guard self1)]
         in if original_guard > 0 \<and> guard self1 = 0
            then (self1\<lparr>is_scarred := True\<rparr>, damage1, log1 @ [msg_scar], True)
            else (self1, damage1, log1, False))
      else (self, damage, [], False))"

text \<open>
  Step 3 (vigor): runs when \<open>damage > 0\<close>; returns the record, the entries appended to
  the log, \<open>wounded\<close> and \<open>mortal_wound_inflicted\<close>. The running damage is read and not
  written here. The three tests follow one another, each on the record as the one before
  left it.

  The mortal-wound test compares the integer \<open>vigor_damage\<close> with the double
  \<open>original_vigor / 2\<close>; Python compares an integer with a double by value. Where the
  division raises \<open>OverflowError\<close> (see \<open>apply_damage_raises\<close> below) the call ends there
  with no report; the functions here describe the calls that return.
\<close>

definition step3_vigor :: "Character \<Rightarrow> int \<Rightarrow> Character \<times> string list \<times> bool \<times> bool" where
  "step3_vigor self damage =
     (if damage > 0 then
        (let original_vigor = vigor self;
             vigor_damage = min damage (vigor self);
             self1 = self\<lparr>vigor := vigor self - vigor_damage\<rparr>;
             log1 = [msg_vigor vigor_damage (vigor self1)];
             (self2, log2, wounded) =
               (if vigor_damage > 0
                then (self1\<lparr>is_wounded := True\<rparr>, log1 @ [msg_wounded], True)
                else (self1, log1, False));
             (self3, log3, mortal_wound_inflicted) =
               (if (of_int vigor_damage :: rat) \<ge> true_div_2 original_vigor
                then (self2\<lparr>is_mortally_wounded := True\<rparr>, log2 @ [msg_mortal], True)
                else (self2, log2, False));
             (self4, log4) =
               (if vigor self3 \<le> 0
                then (self3\<lparr>is_alive := False\<rparr>, log3 @ [msg_slain])
                else (self3, log3))
         in (self4, log4, wounded, mortal_wound_inflicted))
      else (self, [], False, False))"

definition apply_damage :: "Character \<Rightarrow> int \<Rightarrow> Character \<times> DamageReport" where
  "apply_damage self damage =
     (let original_damage = damage;
          (damage1, log1) = step1_armor self damage;
          (self2, damage2, log2, scar_inflicted) = step2_guard self damage1;
          (self3, log3, wounded, mortal_wound_inflicted) = step3_vigor self2 damage2
      in (self3,
          \<lparr>original_damage = original_damage,
           final_damage = original_damage - damage2,
           damage_log = log1 @ log2 @ log3,
           wounded = wounded,
           mortal_wound_inflicted = mortal_wound_inflicted,
           scar_inflicted = scar_inflicted,
           character_slain = (\<not> is_alive self3)\<rparr>))"

section \<open>Healing, restoring, resetting, editing the maxima\<close>

definition heal_vigor :: "Character \<Rightarrow> int \<Rightarrow> Character" where
  "heal_vigor self amount =
     (let self1 = self\<lparr>vigor := min (vigor self + amount) (max_vigor self)\<rparr>
      in if vigor self1 = max_vigor self1
         then self1\<lparr>is_wounded := False, is_mortally_wounded := False\<rparr>
         else self1)"

definition restore_guard :: "Character \<Rightarrow> int \<Rightarrow> Character" where
  "restore_guard self amount = self\<lparr>guard := min (guard self + amount) (max_guard self)\<rparr>"

definition reset_to_full :: "Character \<Rightarrow> Character" where
  "reset_to_full self =
     self\<lparr>vigor := max_vigor self,
          clarity := max_clarity self,
          spirit := max_spirit self,
          guard := max_guard self,
          is_mortally_wounded := False,
          is_wounded := False,
          is_impaired := False,
          is_fatigued := False,
          is_scarred := False,
          is_alive := True\<rparr>"

text \<open>
  The handler of the "Update Character" form in \<open>character_management_page\<close>: the four
  maxima and the armor are overwritten, then each current value is cut down to its maximum.
\<close>

definition set_maximums :: "Character \<Rightarrow> int \<Rightarrow> int \<Rightarrow> int \<Rightarrow> int \<Rightarrow> int \<Rightarrow> Character" where
  "set_maximums character new_max_vigor new_max_clarity new_max_spirit new_max_guard new_armor =
     (let c1 = character\<lparr>max_vigor := new_max_vigor,
                         max_clarity := new_max_clarity,
                         max_spirit := new_max_spirit,
                         max_guard := new_max_guard,
                         armor := new_armor\<rparr>
      in c1\<lparr>vigor := min (vigor c1) (max_vigor c1),
            clarity := min (clarity c1) (max_clarity c1),
            spirit := min (spirit c1) (max_spirit c1),
            guard := min (guard c1) (max_guard c1)\<rparr>)"

section \<open>Quantities and predicates used in the statements\<close>

text \<open>The running \<open>damage\<close> of \<open>apply_damage\<close> after step 1 and after step 2.\<close>

definition after_armor :: "Character \<Rightarrow> int \<Rightarrow> int" where
  "after_armor self damage = fst (step1_armor self damage)"

definition after_guard :: "Character \<Rightarrow> int \<Rightarrow> int" where
  "after_guard self damage = fst (snd (step2_guard self (after_armor self damage)))"


text \<open>The pool invariant of vigor and guard: each current value between 0 and its maximum.\<close>

definition pools_in_range :: "Character \<Rightarrow> bool" where
  "pools_in_range c \<longleftrightarrow>
     0 \<le> vigor c \<and> vigor c \<le> max_vigor c \<and> 0 \<le> guard c \<and> guard c \<le> max_guard c"

text \<open>
  The core operations as values, and a sequence of them run from left to right on one
  record. An operation is admissible when its arguments are ones the interface lets
  through: amounts are not negative, and the "Update Character" form has
  \<open>min_value=1\<close> for the maxima of vigor, clarity and spirit and \<open>min_value=0\<close> for
  the maximum of guard and for armor.
\<close>

datatype operation =
    ApplyDamage int
  | HealVigor int
  | RestoreGuard int
  | ResetToFull
  | SetMaximums int int int int int

fun perform :: "operation \<Rightarrow> Character \<Rightarrow> Character" where
  "perform (ApplyDamage damage) c = fst (apply_damage c damage)"
| "perform (HealVigor amount) c = heal_vigor c amount"
| "perform (RestoreGuard amount) c = restore_guard c amount"
| "perform ResetToFull c = reset_to_full c"
| "perform (SetMaximums mv mc ms mg ar) c = set_maximums c mv mc ms mg ar"

fun run :: "Character \<Rightarrow> operation list \<Rightarrow> Character" where
  "run c [] = c"
| "run c (op # ops) = run (perform op c) ops"

fun admissible :: "operation \<Rightarrow> bool" where
  "admissible (ApplyDamage damage) \<longleftrightarrow> 0 \<le> damage"
| "admissible (HealVigor amount) \<longleftrightarrow> 0 \<le> amount"
| "admissible (RestoreGuard amount) \<longleftrightarrow> 0 \<le> amount"
| "admissible ResetToFull \<longleftrightarrow> True"
| "admissible (SetMaximums mv mc ms mg ar) \<longleftrightarrow> 1 \<le> mv \<and> 1 \<le> mc \<and> 1 \<le> ms \<and> 0 \<le> mg \<and> 0 \<le> ar"

text \<open>
  A record as \<open>character_creation_page\<close> builds it: every pool at its maximum, the
  maximum of vigor at least 1, the flags at their defaults.
\<close>

definition created :: "Character \<Rightarrow> bool" where
  "created c \<longleftrightarrow>
     vigor c = max_vigor c \<and> 1 \<le> max_vigor c \<and>
     clarity c = max_clarity c \<and> 1 \<le> max_clarity c \<and>
     spirit c = max_spirit c \<and> 1 \<le> max_spirit c \<and>
     guard c = max_guard c \<and> 0 \<le> max_guard c \<and> 0 \<le> armor c \<and>
     \<not> is_mortally_wounded c \<and> \<not> is_wounded c \<and> \<not> is_impaired c \<and>
     \<not> is_fatigued c \<and> \<not> is_scarred c \<and> is_alive c"

text \<open>
  "Vigor has reached 0 at some point and no reset has occurred since", over the run of
  \<open>ops\<close> from \<open>c\<close>: some state of the run (the one after the first \<open>k\<close> operations) has
  vigor at most 0, and none of the operations after it is \<open>ResetToFull\<close>.
\<close>

definition vigor_spent_since_reset :: "Character \<Rightarrow> operation list \<Rightarrow> bool" where
  "vigor_spent_since_reset c ops \<longleftrightarrow>
     (\<exists>k \<in> set [0..<Suc (length ops)].
        vigor (run c (take k ops)) \<le> 0 \<and> ResetToFull \<notin> set (drop k ops))"

text \<open>
  What every record of an admissible run from a created one satisfies: vigor in range, a
  maximum of at least 1, and no living character with vigor at 0.
\<close>

definition lifecycle_inv :: "Character \<Rightarrow> bool" where
  "lifecycle_inv c \<longleftrightarrow>
     0 \<le> vigor c \<and> vigor c \<le> max_vigor c \<and> 1 \<le> max_vigor c \<and> (is_alive c \<longrightarrow> 0 < vigor c)"

section \<open>Example records\<close>

text \<open>A freshly created character, and variants of it used to evaluate the operations.\<close>

definition knight :: Character where
  "knight =
     \<lparr>name = ''Knight'', vigor = 10, max_vigor = 10, clarity = 8, max_clarity = 8,
      spirit = 7, max_spirit = 7, guard = 3, max_guard = 3, armor = 2,
      is_mortally_wounded = False, is_wounded = False, is_impaired = False,
      is_fatigued = False, is_scarred = False, is_alive = True,
      notes = ''sworn to the seat'', profile_image = None\<rparr>"

definition bare :: "int \<Rightarrow> Character" where
  "bare v = knight\<lparr>vigor := v, guard := 0, armor := 0\<rparr>"


text \<open>The knight after a hit of 15: guard and vigor spent, scarred, wounded, slain.\<close>

definition fallen :: Character where
  "fallen = knight\<lparr>vigor := 0, guard := 0, is_mortally_wounded := True, is_wounded := True,
                  is_scarred := True, is_alive := False\<rparr>"

section \<open>The division is exact up to \<open>2 ^ 53\<close>\<close>

lemma excess_bits_small: "m < 2 ^ 53 \<Longrightarrow> excess_bits m = 0"
  by (simp add: excess_bits.simps)

lemma excess_bits_2_53: "excess_bits 9007199254740992 = 1"
  by (simp add: excess_bits.simps [of 9007199254740992] excess_bits_small)

lemma round_to_double_exact: "0 \<le> m \<Longrightarrow> m \<le> 2 ^ 53 \<Longrightarrow> round_to_double m = m"
proof (cases "m < 2 ^ 53")
  case True
  then show ?thesis
    by (simp add: round_to_double_def excess_bits_small)
next
  case False
  assume "m \<le> 2 ^ 53"
  with False have "m = 2 ^ 53" by simp
  then show ?thesis
    by (simp add: round_to_double_def excess_bits_2_53)
qed

lemma true_div_2_exact: "\<bar>n\<bar> \<le> 2 ^ 53 \<Longrightarrow> true_div_2 n = of_int n / 2"
  by (simp add: true_div_2_def round_to_double_exact mult_sgn_abs)


lemma true_div_2_0: "true_div_2 0 = 0"
  by (simp add: true_div_2_def)




section \<open>What each step reads and writes\<close>

lemma step1_armor_damage: "fst (step1_armor c d) = (if armor c > 0 then d - min d (armor c) else d)"
  by (simp add: step1_armor_def Let_def)

lemma step1_armor_log:
  "snd (step1_armor c d) = (if armor c > 0 then [msg_armor (min d (armor c))] else [])"
  by (simp add: step1_armor_def Let_def)

lemma step2_guard_idle: "d \<le> 0 \<or> guard c \<le> 0 \<Longrightarrow> step2_guard c d = (c, d, [], False)"
  by (auto simp add: step2_guard_def)

lemma step3_vigor_idle: "d \<le> 0 \<Longrightarrow> step3_vigor c d = (c, [], False, False)"
  by (simp add: step3_vigor_def)

lemma step2_guard_changed:
  "guard (fst (step2_guard c d)) = (if d > 0 \<and> guard c > 0 then guard c - min d (guard c) else guard c)"
  "is_scarred (fst (step2_guard c d)) = (is_scarred c \<or> (d > 0 \<and> 0 < guard c \<and> guard c \<le> d))"
  by (auto simp add: step2_guard_def Let_def)

lemma step2_guard_frame:
  "name (fst (step2_guard c d)) = name c"
  "vigor (fst (step2_guard c d)) = vigor c"
  "max_vigor (fst (step2_guard c d)) = max_vigor c"
  "clarity (fst (step2_guard c d)) = clarity c"
  "max_clarity (fst (step2_guard c d)) = max_clarity c"
  "spirit (fst (step2_guard c d)) = spirit c"
  "max_spirit (fst (step2_guard c d)) = max_spirit c"
  "max_guard (fst (step2_guard c d)) = max_guard c"
  "armor (fst (step2_guard c d)) = armor c"
  "is_mortally_wounded (fst (step2_guard c d)) = is_mortally_wounded c"
  "is_wounded (fst (step2_guard c d)) = is_wounded c"
  "is_impaired (fst (step2_guard c d)) = is_impaired c"
  "is_fatigued (fst (step2_guard c d)) = is_fatigued c"
  "is_alive (fst (step2_guard c d)) = is_alive c"
  "notes (fst (step2_guard c d)) = notes c"
  "profile_image (fst (step2_guard c d)) = profile_image c"
  by (simp_all add: step2_guard_def Let_def)

lemma step2_guard_damage:
  "fst (snd (step2_guard c d)) = (if d > 0 \<and> guard c > 0 then d - min d (guard c) else d)"
  by (simp add: step2_guard_def Let_def)

lemma step2_guard_log:
  "fst (snd (snd (step2_guard c d))) =
     (if d > 0 \<and> guard c > 0
      then msg_guard (min d (guard c)) (guard c - min d (guard c)) # (if guard c \<le> d then [msg_scar] else [])
      else [])"
  by (auto simp add: step2_guard_def Let_def)

lemma step2_guard_scar:
  "snd (snd (snd (step2_guard c d))) = (d > 0 \<and> 0 < guard c \<and> guard c \<le> d)"
  by (auto simp add: step2_guard_def Let_def)


lemma step3_vigor_changed:
  "vigor (fst (step3_vigor c d)) = (if d > 0 then vigor c - min d (vigor c) else vigor c)"
  "is_wounded (fst (step3_vigor c d)) = (is_wounded c \<or> (d > 0 \<and> 0 < min d (vigor c)))"
  "is_mortally_wounded (fst (step3_vigor c d)) =
     (is_mortally_wounded c \<or> (d > 0 \<and> true_div_2 (vigor c) \<le> of_int (min d (vigor c))))"
  "is_alive (fst (step3_vigor c d)) = (is_alive c \<and> \<not> (d > 0 \<and> vigor c - min d (vigor c) \<le> 0))"
  by (auto simp add: step3_vigor_def Let_def split: prod.splits)

lemma step3_vigor_frame:
  "name (fst (step3_vigor c d)) = name c"
  "max_vigor (fst (step3_vigor c d)) = max_vigor c"
  "clarity (fst (step3_vigor c d)) = clarity c"
  "max_clarity (fst (step3_vigor c d)) = max_clarity c"
  "spirit (fst (step3_vigor c d)) = spirit c"
  "max_spirit (fst (step3_vigor c d)) = max_spirit c"
  "guard (fst (step3_vigor c d)) = guard c"
  "max_guard (fst (step3_vigor c d)) = max_guard c"
  "armor (fst (step3_vigor c d)) = armor c"
  "is_impaired (fst (step3_vigor c d)) = is_impaired c"
  "is_fatigued (fst (step3_vigor c d)) = is_fatigued c"
  "is_scarred (fst (step3_vigor c d)) = is_scarred c"
  "notes (fst (step3_vigor c d)) = notes c"
  "profile_image (fst (step3_vigor c d)) = profile_image c"
  by (simp_all add: step3_vigor_def Let_def split: prod.splits)

lemma step3_vigor_flags:
  "fst (snd (snd (step3_vigor c d))) = (d > 0 \<and> 0 < min d (vigor c))"
  "snd (snd (snd (step3_vigor c d))) = (d > 0 \<and> true_div_2 (vigor c) \<le> of_int (min d (vigor c)))"
  by (auto simp add: step3_vigor_def Let_def split: prod.splits)

lemma apply_damage_record:
  "fst (apply_damage c d) = fst (step3_vigor (fst (step2_guard c (after_armor c d))) (after_guard c d))"
  by (simp add: apply_damage_def after_armor_def after_guard_def split: prod.splits)

lemma apply_damage_report:
  "original_damage (snd (apply_damage c d)) = d"
  "final_damage (snd (apply_damage c d)) = d - after_guard c d"
  "damage_log (snd (apply_damage c d)) =
     snd (step1_armor c d) @ fst (snd (snd (step2_guard c (after_armor c d))))
       @ fst (snd (step3_vigor (fst (step2_guard c (after_armor c d))) (after_guard c d)))"
  "wounded (snd (apply_damage c d)) =
     fst (snd (snd (step3_vigor (fst (step2_guard c (after_armor c d))) (after_guard c d))))"
  "mortal_wound_inflicted (snd (apply_damage c d)) =
     snd (snd (snd (step3_vigor (fst (step2_guard c (after_armor c d))) (after_guard c d))))"
  "scar_inflicted (snd (apply_damage c d)) = snd (snd (snd (step2_guard c (after_armor c d))))"
  "character_slain (snd (apply_damage c d)) = (\<not> is_alive (fst (apply_damage c d)))"
  by (simp_all add: apply_damage_def after_armor_def after_guard_def split: prod.splits)

section \<open>What a call of \<open>apply_damage\<close> reads and writes\<close>

lemma after_armor_eq: "after_armor c d = (if armor c > 0 then d - min d (armor c) else d)"
  by (simp add: after_armor_def step1_armor_damage)

lemma after_guard_eq:
  "after_guard c d =
     (if after_armor c d > 0 \<and> guard c > 0 then after_armor c d - min (after_armor c d) (guard c)
      else after_armor c d)"
  by (simp add: after_guard_def step2_guard_damage)

lemma apply_damage_frame:
  "name (fst (apply_damage c d)) = name c"
  "max_vigor (fst (apply_damage c d)) = max_vigor c"
  "clarity (fst (apply_damage c d)) = clarity c"
  "max_clarity (fst (apply_damage c d)) = max_clarity c"
  "spirit (fst (apply_damage c d)) = spirit c"
  "max_spirit (fst (apply_damage c d)) = max_spirit c"
  "max_guard (fst (apply_damage c d)) = max_guard c"
  "armor (fst (apply_damage c d)) = armor c"
  "is_impaired (fst (apply_damage c d)) = is_impaired c"
  "is_fatigued (fst (apply_damage c d)) = is_fatigued c"
  "notes (fst (apply_damage c d)) = notes c"
  "profile_image (fst (apply_damage c d)) = profile_image c"
  by (simp_all add: apply_damage_record step3_vigor_frame step2_guard_frame)

lemma apply_damage_guard:
  "guard (fst (apply_damage c d)) =
     (if after_armor c d > 0 \<and> guard c > 0 then guard c - min (after_armor c d) (guard c) else guard c)"
  by (simp add: apply_damage_record step3_vigor_frame step2_guard_changed)

lemma apply_damage_vigor:
  "vigor (fst (apply_damage c d)) =
     (if after_guard c d > 0 then vigor c - min (after_guard c d) (vigor c) else vigor c)"
  by (simp add: apply_damage_record step3_vigor_changed step2_guard_frame)

lemma apply_damage_is_scarred:
  "is_scarred (fst (apply_damage c d)) =
     (is_scarred c \<or> (after_armor c d > 0 \<and> 0 < guard c \<and> guard c \<le> after_armor c d))"
  by (simp add: apply_damage_record step3_vigor_frame step2_guard_changed)

lemma apply_damage_is_wounded:
  "is_wounded (fst (apply_damage c d)) =
     (is_wounded c \<or> (after_guard c d > 0 \<and> 0 < min (after_guard c d) (vigor c)))"
  by (simp add: apply_damage_record step3_vigor_changed step2_guard_frame)

lemma apply_damage_is_mortally_wounded:
  "is_mortally_wounded (fst (apply_damage c d)) =
     (is_mortally_wounded c \<or>
      (after_guard c d > 0 \<and> true_div_2 (vigor c) \<le> of_int (min (after_guard c d) (vigor c))))"
  by (simp add: apply_damage_record step3_vigor_changed step2_guard_frame)

lemma apply_damage_is_alive:
  "is_alive (fst (apply_damage c d)) =
     (is_alive c \<and> \<not> (after_guard c d > 0 \<and> vigor c - min (after_guard c d) (vigor c) \<le> 0))"
  by (simp add: apply_damage_record step3_vigor_changed step2_guard_frame)

lemma apply_damage_flags:
  "wounded (snd (apply_damage c d)) = (after_guard c d > 0 \<and> 0 < min (after_guard c d) (vigor c))"
  "mortal_wound_inflicted (snd (apply_damage c d)) =
     (after_guard c d > 0 \<and> true_div_2 (vigor c) \<le> of_int (min (after_guard c d) (vigor c)))"
  "scar_inflicted (snd (apply_damage c d)) =
     (after_armor c d > 0 \<and> 0 < guard c \<and> guard c \<le> after_armor c d)"
  by (simp_all add: apply_damage_report step3_vigor_flags step2_guard_scar step2_guard_frame)

lemma apply_damage_absorbed:
  assumes "after_armor c d \<le> 0"
  shows "fst (apply_damage c d) = c"
    and "damage_log (snd (apply_damage c d)) = snd (step1_armor c d)"
    and "after_guard c d = after_armor c d"
proof -
  from assms have g: "step2_guard c (after_armor c d) = (c, after_armor c d, [], False)"
    by (simp add: step2_guard_idle)
  then show ag: "after_guard c d = after_armor c d"
    by (simp add: after_guard_def)
  with assms have v: "step3_vigor c (after_guard c d) = (c, [], False, False)"
    by (simp add: step3_vigor_idle)
  from g v show "fst (apply_damage c d) = c"
    by (simp add: apply_damage_record)
  from g v show "damage_log (snd (apply_damage c d)) = snd (step1_armor c d)"
    by (simp add: apply_damage_report)
qed

lemma str_int_0: "str_int 0 = ''0''"
  by code_simp

lemma step3_vigor_log:
  "fst (snd (step3_vigor c d)) =
     (if d > 0
      then msg_vigor (min d (vigor c)) (vigor c - min d (vigor c))
             # (if 0 < min d (vigor c) then [msg_wounded] else [])
             @ (if true_div_2 (vigor c) \<le> of_int (min d (vigor c)) then [msg_mortal] else [])
             @ (if vigor c - min d (vigor c) \<le> 0 then [msg_slain] else [])
      else [])"
  by (auto simp add: step3_vigor_def Let_def split: prod.splits)

lemma msg_scar_distinct:
  "msg_armor x \<noteq> msg_scar" "msg_guard x y \<noteq> msg_scar" "msg_vigor x y \<noteq> msg_scar"
  "msg_wounded \<noteq> msg_scar" "msg_mortal \<noteq> msg_scar" "msg_slain \<noteq> msg_scar"
  by (simp_all add: msg_armor_def msg_guard_def msg_vigor_def msg_wounded_def msg_mortal_def
      msg_slain_def msg_scar_def)

lemma heal_vigor_fields:
  "vigor (heal_vigor c amount) = min (vigor c + amount) (max_vigor c)"
  "max_vigor (heal_vigor c amount) = max_vigor c"
  "guard (heal_vigor c amount) = guard c"
  "max_guard (heal_vigor c amount) = max_guard c"
  "is_scarred (heal_vigor c amount) = is_scarred c"
  "is_alive (heal_vigor c amount) = is_alive c"
  by (simp_all add: heal_vigor_def Let_def)

lemma set_maximums_fields:
  "vigor (set_maximums c mv mc ms mg ar) = min (vigor c) mv"
  "max_vigor (set_maximums c mv mc ms mg ar) = mv"
  "guard (set_maximums c mv mc ms mg ar) = min (guard c) mg"
  "max_guard (set_maximums c mv mc ms mg ar) = mg"
  "is_scarred (set_maximums c mv mc ms mg ar) = is_scarred c"
  "is_alive (set_maximums c mv mc ms mg ar) = is_alive c"
  by (simp_all add: set_maximums_def Let_def)

lemma final_damage_le_original:
  "0 \<le> d \<Longrightarrow> final_damage (snd (apply_damage c d)) \<le> original_damage (snd (apply_damage c d))"
  by (simp add: apply_damage_report after_guard_eq after_armor_eq)

lemma final_damage_is_armor_and_guard_loss:
  "final_damage (snd (apply_damage c d)) =
     (d - after_armor c d) + (guard c - guard (fst (apply_damage c d)))"
  by (simp add: apply_damage_report apply_damage_guard after_guard_eq)

lemma msg_armor_0: "msg_armor 0 = ''Armor absorbed 0 damage''"
  by (simp add: msg_armor_def str_int_0)

lemma apply_damage_log:
  "damage_log (snd (apply_damage c d)) =
     (if 0 < armor c then [msg_armor (min d (armor c))] else [])
     @ (if 0 < after_armor c d \<and> 0 < guard c
        then msg_guard (min (after_armor c d) (guard c)) (guard c - min (after_armor c d) (guard c))
               # (if guard c \<le> after_armor c d then [msg_scar] else [])
        else [])
     @ (if 0 < after_guard c d
        then msg_vigor (min (after_guard c d) (vigor c)) (vigor c - min (after_guard c d) (vigor c))
               # (if 0 < min (after_guard c d) (vigor c) then [msg_wounded] else [])
               @ (if true_div_2 (vigor c) \<le> of_int (min (after_guard c d) (vigor c))
                  then [msg_mortal] else [])
               @ (if vigor c - min (after_guard c d) (vigor c) \<le> 0 then [msg_slain] else [])
        else [])"
  by (simp add: apply_damage_report(3) step1_armor_log step2_guard_log step3_vigor_log
      step2_guard_frame)

lemma count_scar_entries:
  "count_list (damage_log (snd (apply_damage c d))) msg_scar =
     (if scar_inflicted (snd (apply_damage c d)) then 1 else 0)"
  by (simp add: apply_damage_log apply_damage_flags msg_scar_distinct)

lemma fallen_reached: "fst (apply_damage knight 15) = fallen"
  by (simp add: apply_damage_def step1_armor_def step2_guard_def step3_vigor_def Let_def
      true_div_2_exact knight_def fallen_def)

section \<open>Runs of operations\<close>

lemma run_snoc: "run c (ops @ [op]) = perform op (run c ops)"
  by (induction ops arbitrary: c) simp_all

lemma reset_to_full_fields:
  "vigor (reset_to_full c) = max_vigor c"
  "max_vigor (reset_to_full c) = max_vigor c"
  "is_alive (reset_to_full c)"
  by (simp_all add: reset_to_full_def)

lemma restore_guard_fields:
  "vigor (restore_guard c amount) = vigor c"
  "max_vigor (restore_guard c amount) = max_vigor c"
  "is_alive (restore_guard c amount) = is_alive c"
  by (simp_all add: restore_guard_def)

lemma perform_lifecycle_inv:
  assumes "admissible op" and "lifecycle_inv c"
  shows "lifecycle_inv (perform op c)"
proof (cases op)
  case (ApplyDamage damage)
  with assms(2) show ?thesis
    by (auto simp add: lifecycle_inv_def apply_damage_vigor apply_damage_frame apply_damage_is_alive)
next
  case (HealVigor amount)
  with assms show ?thesis
    by (auto simp add: lifecycle_inv_def heal_vigor_fields)
next
  case (RestoreGuard amount)
  with assms(2) show ?thesis
    by (simp add: lifecycle_inv_def restore_guard_fields)
next
  case ResetToFull
  with assms(2) show ?thesis
    by (simp add: lifecycle_inv_def reset_to_full_fields)
next
  case (SetMaximums mv mc ms mg ar)
  with assms show ?thesis
    by (auto simp add: lifecycle_inv_def set_maximums_fields)
qed

lemma run_lifecycle_inv:
  "list_all admissible ops \<Longrightarrow> lifecycle_inv c \<Longrightarrow> lifecycle_inv (run c ops)"
  by (induction ops arbitrary: c) (simp_all add: perform_lifecycle_inv)

lemma perform_keeps_dead:
  "op \<noteq> ResetToFull \<Longrightarrow> \<not> is_alive c \<Longrightarrow> \<not> is_alive (perform op c)"
  by (cases op)
    (simp_all add: apply_damage_is_alive heal_vigor_fields restore_guard_fields set_maximums_fields)

lemma perform_alive:
  assumes "admissible op" and "lifecycle_inv c" and "op \<noteq> ResetToFull"
  shows "is_alive (perform op c) \<longleftrightarrow> is_alive c \<and> 0 < vigor (perform op c)"
proof (cases op)
  case (ApplyDamage damage)
  with assms(2) show ?thesis
    by (auto simp add: lifecycle_inv_def apply_damage_vigor apply_damage_is_alive)
next
  case (HealVigor amount)
  with assms show ?thesis
    by (auto simp add: lifecycle_inv_def heal_vigor_fields)
next
  case (RestoreGuard amount)
  with assms(2) show ?thesis
    by (auto simp add: lifecycle_inv_def restore_guard_fields)
next
  case ResetToFull
  with assms(3) show ?thesis by simp
next
  case (SetMaximums mv mc ms mg ar)
  with assms show ?thesis
    by (auto simp add: lifecycle_inv_def set_maximums_fields)
qed

lemma vigor_spent_snoc:
  "vigor_spent_since_reset c (ops @ [op]) \<longleftrightarrow>
     vigor (run c (ops @ [op])) \<le> 0 \<or> (op \<noteq> ResetToFull \<and> vigor_spent_since_reset c ops)"
proof -
  have split: "set [0..<Suc (length (ops @ [op]))] = insert (Suc (length ops)) (set [0..<Suc (length ops)])"
    by auto
  have early: "\<And>k. k \<in> set [0..<Suc (length ops)] \<Longrightarrow>
      (vigor (run c (take k (ops @ [op]))) \<le> 0 \<and> ResetToFull \<notin> set (drop k (ops @ [op]))) =
      (op \<noteq> ResetToFull \<and> vigor (run c (take k ops)) \<le> 0 \<and> ResetToFull \<notin> set (drop k ops))"
    by auto
  show ?thesis
    unfolding vigor_spent_since_reset_def split
    using early by auto
qed

lemma created_lifecycle_inv: "created c \<Longrightarrow> lifecycle_inv c"
  by (simp add: created_def lifecycle_inv_def)

lemma alive_iff_not_spent:
  "created c \<Longrightarrow> list_all admissible ops \<Longrightarrow>
     is_alive (run c ops) \<longleftrightarrow> \<not> vigor_spent_since_reset c ops"
proof (induction ops rule: rev_induct)
  case Nil
  then show ?case
    by (simp add: vigor_spent_since_reset_def created_def)
next
  case (snoc op ops)
  then have adm: "admissible op" and all: "list_all admissible ops"
    by simp_all
  from snoc.prems(1) all have inv: "lifecycle_inv (run c ops)"
    by (simp add: run_lifecycle_inv created_lifecycle_inv)
  from snoc.IH snoc.prems(1) all
  have ih: "is_alive (run c ops) \<longleftrightarrow> \<not> vigor_spent_since_reset c ops"
    by simp
  show ?case
  proof (cases "op = ResetToFull")
    case True
    from inv have "0 < vigor (reset_to_full (run c ops))"
      by (simp add: lifecycle_inv_def reset_to_full_fields)
    with True show ?thesis
      by (simp add: vigor_spent_snoc run_snoc reset_to_full_fields)
  next
    case False
    from perform_alive [OF adm inv False] ih False show ?thesis
      by (auto simp add: vigor_spent_snoc run_snoc)
  qed
qed

section \<open>The claims\<close>

text \<open>
  Claim C1, as the code has it. For every record, \<open>apply_damage\<close> with a damage of 0
  leaves the record as it was and reports \<open>wounded\<close>, \<open>mortal_wound_inflicted\<close> and
  \<open>scar_inflicted\<close> false. \<open>character_slain\<close> is the negation of \<open>is_alive\<close> on entry, so it
  is false for a living character and true for one already slain. The log holds the one
  entry "Armor absorbed 0 damage" when \<open>armor > 0\<close> (step 1 is guarded by the armor value, not
  by the amount absorbed) and is empty otherwise; no guard or vigor entry appears.
\<close>

theorem C1_zero_damage:
  "fst (apply_damage c 0) = c \<and>
   damage_log (snd (apply_damage c 0)) =
     (if 0 < armor c then [''Armor absorbed 0 damage''] else []) \<and>
   \<not> wounded (snd (apply_damage c 0)) \<and>
   \<not> mortal_wound_inflicted (snd (apply_damage c 0)) \<and>
   \<not> scar_inflicted (snd (apply_damage c 0)) \<and>
   character_slain (snd (apply_damage c 0)) = (\<not> is_alive c)"
proof -
  have a: "after_armor c 0 \<le> 0"
    by (simp add: after_armor_eq)
  then have g: "after_guard c 0 \<le> 0"
    by (simp add: apply_damage_absorbed(3))
  have same: "fst (apply_damage c 0) = c"
    using a by (rule apply_damage_absorbed(1))
  have "damage_log (snd (apply_damage c 0)) =
      (if 0 < armor c then [''Armor absorbed 0 damage''] else [])"
    by (simp add: apply_damage_absorbed(2) [OF a] step1_armor_log msg_armor_0 [symmetric])
  moreover have "character_slain (snd (apply_damage c 0)) = (\<not> is_alive c)"
    by (simp add: apply_damage_report(7) same)
  ultimately show ?thesis
    using a g same by (simp add: apply_damage_flags)
qed

text \<open>
  Claim C1 as stated fails: with a damage of 0 the living knight (armor 2) gets a log
  that is not empty, and the fallen knight gets the same log and \<open>character_slain = True\<close>.
  Both records have their pools in range.
\<close>

theorem C1_zero_damage_counterexample:
  "pools_in_range knight \<and> is_alive knight \<and>
   damage_log (snd (apply_damage knight 0)) = [''Armor absorbed 0 damage''] \<and>
   pools_in_range fallen \<and>
   damage_log (snd (apply_damage fallen 0)) = [''Armor absorbed 0 damage''] \<and>
   character_slain (snd (apply_damage fallen 0)) \<and>
   \<not> (damage_log (snd (apply_damage fallen 0)) = [] \<and>
      \<not> wounded (snd (apply_damage fallen 0)) \<and>
      \<not> mortal_wound_inflicted (snd (apply_damage fallen 0)) \<and>
      \<not> scar_inflicted (snd (apply_damage fallen 0)) \<and>
      \<not> character_slain (snd (apply_damage fallen 0)) \<and>
      fst (apply_damage fallen 0) = fallen)"
proof -
  have k: "armor knight = 2" "is_alive knight" "pools_in_range knight"
    by (simp_all add: pools_in_range_def knight_def)
  have f: "armor fallen = 2" "\<not> is_alive fallen" "pools_in_range fallen"
    by (simp_all add: pools_in_range_def fallen_def knight_def)
  have a: "after_armor knight 0 \<le> 0" "after_armor fallen 0 \<le> 0"
    by (simp_all add: after_armor_eq)
  have "damage_log (snd (apply_damage knight 0)) = snd (step1_armor knight 0)"
    using a(1) by (rule apply_damage_absorbed(2))
  then have lk: "damage_log (snd (apply_damage knight 0)) = [''Armor absorbed 0 damage'']"
    by (simp add: step1_armor_log k msg_armor_0)
  have "damage_log (snd (apply_damage fallen 0)) = snd (step1_armor fallen 0)"
    using a(2) by (rule apply_damage_absorbed(2))
  then have lf: "damage_log (snd (apply_damage fallen 0)) = [''Armor absorbed 0 damage'']"
    by (simp add: step1_armor_log f msg_armor_0)
  have "fst (apply_damage fallen 0) = fallen"
    using a(2) by (rule apply_damage_absorbed(1))
  then have "character_slain (snd (apply_damage fallen 0))"
    by (simp add: apply_damage_report(7) f)
  with k f lk lf show ?thesis by simp
qed




text \<open>
  Claim C3. \<open>apply_damage\<close> reports \<open>scar_inflicted\<close> exactly when guard was positive
  before the call and is 0 after it, and \<open>is_scarred\<close> after the call is its value before
  or \<open>scar_inflicted\<close>. The scar entry is in the log at most once. A scar stays through
  later hits, \<open>restore_guard\<close>, \<open>heal_vigor\<close> and \<open>set_maximums\<close>; \<open>reset_to_full\<close> clears it.
\<close>

theorem C3_scar:
  "(scar_inflicted (snd (apply_damage c d)) \<longleftrightarrow> 0 < guard c \<and> guard (fst (apply_damage c d)) = 0) \<and>
   (is_scarred (fst (apply_damage c d)) \<longleftrightarrow> is_scarred c \<or> scar_inflicted (snd (apply_damage c d))) \<and>
   count_list (damage_log (snd (apply_damage c d))) msg_scar \<le> 1 \<and>
   (is_scarred c \<longrightarrow> is_scarred (fst (apply_damage c d))) \<and>
   is_scarred (restore_guard c amount) = is_scarred c \<and>
   is_scarred (heal_vigor c amount) = is_scarred c \<and>
   is_scarred (set_maximums c mv mc ms mg ar) = is_scarred c \<and>
   \<not> is_scarred (reset_to_full c)"
proof -
  have "scar_inflicted (snd (apply_damage c d)) \<longleftrightarrow> 0 < guard c \<and> guard (fst (apply_damage c d)) = 0"
    by (auto simp add: apply_damage_flags apply_damage_guard)
  moreover have "is_scarred (fst (apply_damage c d)) \<longleftrightarrow>
      is_scarred c \<or> scar_inflicted (snd (apply_damage c d))"
    by (simp add: apply_damage_flags apply_damage_is_scarred)
  moreover have "count_list (damage_log (snd (apply_damage c d))) msg_scar \<le> 1"
    by (simp add: count_scar_entries)
  moreover have "is_scarred (restore_guard c amount) = is_scarred c"
    by (simp add: restore_guard_def)
  moreover have "\<not> is_scarred (reset_to_full c)"
    by (simp add: reset_to_full_def)
  ultimately show ?thesis
    by (simp add: heal_vigor_fields set_maximums_fields)
qed

theorem C3_scar_witness:
  "scar_inflicted (snd (apply_damage knight 5)) \<and>
   guard (fst (apply_damage knight 5)) = 0 \<and>
   is_scarred (fst (apply_damage knight 5)) \<and>
   is_scarred (fst (apply_damage (fst (apply_damage knight 5)) 1)) \<and>
   is_scarred (restore_guard (fst (apply_damage knight 5)) 3)"
proof -
  have g: "guard (fst (apply_damage knight 5)) = 0" "0 < guard knight"
    by (simp_all add: apply_damage_guard after_armor_eq knight_def)
  from g C3_scar [of knight 5] have s: "is_scarred (fst (apply_damage knight 5))"
    by simp
  with g C3_scar [of knight 5] C3_scar [of "fst (apply_damage knight 5)" 1 3] show ?thesis
    by simp
qed

text \<open>
  Claim C4. From a record with \<open>0 \<le> vigor \<le> max_vigor\<close> and \<open>0 \<le> guard \<le> max_guard\<close>,
  with an amount that is not negative (for the edit of the maxima: new maxima of vigor and
  guard that are not negative), each of \<open>apply_damage\<close>, \<open>heal_vigor\<close>, \<open>restore_guard\<close>,
  \<open>reset_to_full\<close> and \<open>set_maximums\<close> returns a record with both pools in range again.
\<close>

theorem C4_pools_stay_in_range:
  assumes "pools_in_range c" and "0 \<le> amount" and "0 \<le> new_max_vigor" and "0 \<le> new_max_guard"
  shows "pools_in_range (fst (apply_damage c amount)) \<and>
         pools_in_range (heal_vigor c amount) \<and>
         pools_in_range (restore_guard c amount) \<and>
         pools_in_range (reset_to_full c) \<and>
         pools_in_range (set_maximums c new_max_vigor new_max_clarity new_max_spirit new_max_guard new_armor)"
proof -
  have "pools_in_range (fst (apply_damage c amount))"
    using assms(1)
    by (auto simp add: pools_in_range_def apply_damage_vigor apply_damage_guard apply_damage_frame)
  moreover have "pools_in_range (heal_vigor c amount)"
    using assms(1,2) by (simp add: pools_in_range_def heal_vigor_fields)
  moreover have "pools_in_range (restore_guard c amount)"
    using assms(1,2) by (simp add: pools_in_range_def restore_guard_def)
  moreover have "pools_in_range (reset_to_full c)"
    using assms(1) by (simp add: pools_in_range_def reset_to_full_def)
  moreover have "pools_in_range
      (set_maximums c new_max_vigor new_max_clarity new_max_spirit new_max_guard new_armor)"
    using assms(1,3,4) by (simp add: pools_in_range_def set_maximums_fields)
  ultimately show ?thesis by blast
qed

theorem C4_pools_stay_in_range_witness:
  "pools_in_range knight \<and> (0::int) \<le> 12 \<and> (0::int) \<le> 4 \<and> (0::int) \<le> 1 \<and>
   pools_in_range (fst (apply_damage knight 12)) \<and>
   pools_in_range (heal_vigor knight 12) \<and>
   pools_in_range (restore_guard knight 12) \<and>
   pools_in_range (reset_to_full knight) \<and>
   pools_in_range (set_maximums knight 4 6 6 1 0)"
proof -
  have h: "pools_in_range knight"
    by (simp add: pools_in_range_def knight_def)
  from C4_pools_stay_in_range [OF h, of 12 4 1 6 6 0] h show ?thesis
    by simp
qed

text \<open>
  Claim C5, evaluated at armor 0, guard 0, vigor 10 and a damage of 6: armor, guard and
  vigor together cover the damage and 6 vigor is removed, yet \<open>final_damage\<close> is 0 and not
  6. The running \<open>damage\<close> is decremented by the armor and guard steps and not by the
  vigor step, so \<open>final_damage\<close> counts what armor and guard took and leaves the vigor
  loss out.
\<close>

theorem C5_final_damage_omits_vigor_loss:
  "armor (bare 10) + guard (bare 10) + vigor (bare 10) \<ge> 6 \<and>
   original_damage (snd (apply_damage (bare 10) 6)) = 6 \<and>
   vigor (fst (apply_damage (bare 10) 6)) = 4 \<and>
   final_damage (snd (apply_damage (bare 10) 6)) = 0"
proof -
  have h: "armor (bare 10) = 0" "guard (bare 10) = 0" "vigor (bare 10) = 10"
    by (simp_all add: bare_def knight_def)
  then show ?thesis
    by (simp add: apply_damage_report apply_damage_vigor after_guard_eq after_armor_eq)
qed

text \<open>
  Claim C6. For a living character, a hit with \<open>damage \<le> armor\<close> leaves the whole
  record as it was (guard, vigor and every condition flag with it), and the report has
  \<open>wounded\<close>, \<open>mortal_wound_inflicted\<close>, \<open>scar_inflicted\<close> and \<open>character_slain\<close> all false.
\<close>

theorem C6_absorbed_by_armor:
  assumes "is_alive c" and "d \<le> armor c"
  shows "fst (apply_damage c d) = c \<and>
         \<not> wounded (snd (apply_damage c d)) \<and>
         \<not> mortal_wound_inflicted (snd (apply_damage c d)) \<and>
         \<not> scar_inflicted (snd (apply_damage c d)) \<and>
         \<not> character_slain (snd (apply_damage c d))"
proof -
  from assms(2) have a: "after_armor c d \<le> 0"
    by (simp add: after_armor_eq)
  then have g: "after_guard c d \<le> 0"
    by (simp add: apply_damage_absorbed(3))
  have same: "fst (apply_damage c d) = c"
    using a by (rule apply_damage_absorbed(1))
  moreover have "\<not> character_slain (snd (apply_damage c d))"
    using assms(1) same by (simp add: apply_damage_report(7))
  ultimately show ?thesis
    using a g by (simp add: apply_damage_flags)
qed

theorem C6_absorbed_by_armor_witness:
  "is_alive knight \<and> 1 \<le> armor knight \<and>
   guard (fst (apply_damage knight 1)) = 3 \<and> vigor (fst (apply_damage knight 1)) = 10 \<and>
   fst (apply_damage knight 1) = knight \<and>
   \<not> wounded (snd (apply_damage knight 1)) \<and>
   \<not> mortal_wound_inflicted (snd (apply_damage knight 1)) \<and>
   \<not> scar_inflicted (snd (apply_damage knight 1)) \<and>
   \<not> character_slain (snd (apply_damage knight 1))"
proof -
  have h: "is_alive knight" "1 \<le> armor knight" "guard knight = 3" "vigor knight = 10"
    by (simp_all add: knight_def)
  from C6_absorbed_by_armor [OF h(1) h(2)] h show ?thesis
    by simp
qed

text \<open>
  Claim C7. Over every run of admissible operations from a created record, \<open>is_alive\<close>
  is false exactly when vigor has been at 0 in some state of the run with no
  \<open>reset_to_full\<close> after it. \<open>reset_to_full\<close> sets \<open>is_alive\<close>; no other operation turns a
  false \<open>is_alive\<close> into a true one, and \<open>heal_vigor\<close> leaves \<open>is_alive\<close> as it was, whatever
  vigor it restores.
\<close>

theorem C7_alive_iff_vigor_never_spent:
  assumes "created c" and "list_all admissible ops"
  shows "(\<not> is_alive (run c ops) \<longleftrightarrow> vigor_spent_since_reset c ops) \<and>
         is_alive (reset_to_full s) \<and>
         (op \<noteq> ResetToFull \<and> \<not> is_alive s \<longrightarrow> \<not> is_alive (perform op s)) \<and>
         is_alive (heal_vigor s amount) = is_alive s"
  using alive_iff_not_spent [OF assms]
  by (simp add: reset_to_full_fields heal_vigor_fields perform_keeps_dead)

theorem C7_alive_iff_vigor_never_spent_witness:
  "created knight \<and> list_all admissible [ApplyDamage 15, HealVigor 10] \<and>
   vigor (run knight [ApplyDamage 15, HealVigor 10]) = max_vigor knight \<and>
   \<not> is_alive (run knight [ApplyDamage 15, HealVigor 10]) \<and>
   vigor_spent_since_reset knight [ApplyDamage 15, HealVigor 10] \<and>
   is_alive (run knight [ApplyDamage 15, HealVigor 10, ResetToFull]) \<and>
   \<not> vigor_spent_since_reset knight [ApplyDamage 15, HealVigor 10, ResetToFull]"
proof -
  have h: "created knight"
    by (simp add: created_def knight_def)
  have a: "list_all admissible [ApplyDamage 15, HealVigor 10]"
    "list_all admissible [ApplyDamage 15, HealVigor 10, ResetToFull]"
    by simp_all
  have f: "fst (apply_damage knight 15) = fallen"
    by (rule fallen_reached)
  have k: "vigor fallen = 0" "max_vigor fallen = 10" "\<not> is_alive fallen" "max_vigor knight = 10"
    by (simp_all add: fallen_def knight_def)
  have v: "vigor (run knight [ApplyDamage 15, HealVigor 10]) = max_vigor knight"
    "\<not> is_alive (run knight [ApplyDamage 15, HealVigor 10])"
    "is_alive (run knight [ApplyDamage 15, HealVigor 10, ResetToFull])"
    by (simp_all add: f heal_vigor_fields reset_to_full_fields k)
  note t1 = C7_alive_iff_vigor_never_spent [OF h a(1), THEN conjunct1]
  note t2 = C7_alive_iff_vigor_never_spent [OF h a(2), THEN conjunct1]
  from v(2) t1 have s1: "vigor_spent_since_reset knight [ApplyDamage 15, HealVigor 10]"
    by blast
  from v(3) t2 have s2: "\<not> vigor_spent_since_reset knight [ApplyDamage 15, HealVigor 10, ResetToFull]"
    by blast
  from h a(1) v s1 s2 show ?thesis
    by blast
qed

text \<open>
  Claim C8. \<open>heal_vigor\<close> sets vigor to \<open>min (vigor + amount) max_vigor\<close>. When the
  resulting vigor equals \<open>max_vigor\<close> both \<open>is_wounded\<close> and \<open>is_mortally_wounded\<close> are
  cleared; when it does not (a partial heal) both flags are as they were.
\<close>

theorem C8_heal_vigor:
  "vigor (heal_vigor c amount) = min (vigor c + amount) (max_vigor c) \<and>
   (vigor (heal_vigor c amount) = max_vigor c \<longrightarrow>
      \<not> is_wounded (heal_vigor c amount) \<and> \<not> is_mortally_wounded (heal_vigor c amount)) \<and>
   (vigor (heal_vigor c amount) \<noteq> max_vigor c \<longrightarrow>
      is_wounded (heal_vigor c amount) = is_wounded c \<and>
      is_mortally_wounded (heal_vigor c amount) = is_mortally_wounded c)"
  by (auto simp add: heal_vigor_def Let_def)

theorem C8_heal_vigor_witness:
  "vigor (heal_vigor (bare 4\<lparr>is_wounded := True, is_mortally_wounded := True\<rparr>) 6) = 10 \<and>
   \<not> is_wounded (heal_vigor (bare 4\<lparr>is_wounded := True, is_mortally_wounded := True\<rparr>) 6) \<and>
   \<not> is_mortally_wounded (heal_vigor (bare 4\<lparr>is_wounded := True, is_mortally_wounded := True\<rparr>) 6) \<and>
   vigor (heal_vigor (bare 4\<lparr>is_wounded := True, is_mortally_wounded := True\<rparr>) 5) = 9 \<and>
   is_wounded (heal_vigor (bare 4\<lparr>is_wounded := True, is_mortally_wounded := True\<rparr>) 5) \<and>
   is_mortally_wounded (heal_vigor (bare 4\<lparr>is_wounded := True, is_mortally_wounded := True\<rparr>) 5)"
  using C8_heal_vigor [of "bare 4\<lparr>is_wounded := True, is_mortally_wounded := True\<rparr>" 6]
    C8_heal_vigor [of "bare 4\<lparr>is_wounded := True, is_mortally_wounded := True\<rparr>" 5]
  by (simp add: bare_def knight_def)

text \<open>
  Claim C9. For every record and every damage, \<open>apply_damage\<close> leaves \<open>armor\<close>,
  \<open>name\<close>, \<open>clarity\<close>, \<open>spirit\<close>, the four maxima, \<open>notes\<close> and \<open>profile_image\<close> as they
  were: armor is not consumed, and only guard, vigor and condition flags can change.
\<close>

theorem C9_apply_damage_frame:
  "armor (fst (apply_damage c d)) = armor c \<and>
   name (fst (apply_damage c d)) = name c \<and>
   clarity (fst (apply_damage c d)) = clarity c \<and>
   spirit (fst (apply_damage c d)) = spirit c \<and>
   max_vigor (fst (apply_damage c d)) = max_vigor c \<and>
   max_clarity (fst (apply_damage c d)) = max_clarity c \<and>
   max_spirit (fst (apply_damage c d)) = max_spirit c \<and>
   max_guard (fst (apply_damage c d)) = max_guard c \<and>
   notes (fst (apply_damage c d)) = notes c \<and>
   profile_image (fst (apply_damage c d)) = profile_image c"
  by (simp add: apply_damage_frame)

text \<open>
  Claim C10. For a record with \<open>vigor = 0\<close>, when damage remains after the armor and
  guard steps, \<open>apply_damage\<close> sets \<open>is_mortally_wounded\<close>, clears \<open>is_alive\<close>, reports
  \<open>mortal_wound_inflicted\<close> and \<open>character_slain\<close>, removes no vigor and reports
  \<open>wounded = False\<close>.
\<close>

theorem C10_hit_on_spent_vigor:
  assumes "vigor c = 0" and "0 < after_guard c d"
  shows "is_mortally_wounded (fst (apply_damage c d)) \<and>
         \<not> is_alive (fst (apply_damage c d)) \<and>
         mortal_wound_inflicted (snd (apply_damage c d)) \<and>
         character_slain (snd (apply_damage c d)) \<and>
         vigor c - vigor (fst (apply_damage c d)) = 0 \<and>
         \<not> wounded (snd (apply_damage c d))"
  using assms
  by (simp add: apply_damage_is_mortally_wounded apply_damage_is_alive apply_damage_flags
      apply_damage_report(7) apply_damage_vigor true_div_2_0)

theorem C10_hit_on_spent_vigor_witness:
  "vigor fallen = 0 \<and> 0 < after_guard fallen 7 \<and>
   is_mortally_wounded (fst (apply_damage fallen 7)) \<and>
   \<not> is_alive (fst (apply_damage fallen 7)) \<and>
   mortal_wound_inflicted (snd (apply_damage fallen 7)) \<and>
   character_slain (snd (apply_damage fallen 7)) \<and>
   vigor fallen - vigor (fst (apply_damage fallen 7)) = 0 \<and>
   \<not> wounded (snd (apply_damage fallen 7))"
proof -
  have h: "vigor fallen = 0" "0 < after_guard fallen 7"
    by (simp_all add: after_guard_eq after_armor_eq fallen_def knight_def)
  from C10_hit_on_spent_vigor [OF h] h show ?thesis
    by simp
qed

end
